theory Spec2Isabelle
  imports Main
begin

section \<open>Morris sampling (SALib/sample/morris.py): a shallow embedding\<close>

subsection \<open>Exceptions\<close>

text \<open>
  Every exception the module can raise is a value. The module itself raises only
  \<open>ValueError\<close>, with four different messages; \<open>KeyError\<close>, \<open>IndexError\<close> and
  \<open>AttributeError\<close> are what the interpreter raises on a missing dictionary key, an
  index outside an array and an attribute of \<open>None\<close>. \<open>ConfigurationError\<close> is the
  name the specification gives to the error of the trajectory builder, whose code is
  not part of this module.
\<close>

datatype error =
    ValueError string
  | KeyError
  | IndexError
  | AttributeError
  | ConfigurationError

definition msg_names_mismatch :: string where
  "msg_names_mismatch =
     ''The parameter names from the group file do not match those from the parameter file''"

definition msg_not_fewer :: string where
  "msg_not_fewer =
     ''The number of optimal trajectories should be less than the number of samples.''"

definition msg_too_large :: string where
  "msg_too_large =
     ''Running optimal trajectories greater than values of 10 will take a long time.''"

definition msg_too_small :: string where
  "msg_too_small =
     ''The number of optimal trajectories must be set to 2 or more.''"

text \<open>
  The specification's configuration errors are the module's \<open>ValueError\<close>s, and the
  builder's own \<open>ConfigurationError\<close>.
\<close>

fun configuration_error :: "error \<Rightarrow> bool" where
  "configuration_error (ValueError _) = True"
| "configuration_error ConfigurationError = True"
| "configuration_error _ = False"

subsection \<open>Morris.flatten\<close>

text \<open>
  The argument of \<open>flatten\<close> is a list whose elements are strings or again such lists.
  \<open>isinstance(el, Iterable) and not isinstance(el, basestring)\<close> holds of a list and
  not of a string, so the two constructors are the two branches of the loop body. The
  generator is modelled by the list of the values it yields, in the order it yields them.
\<close>

datatype nested = Str string | Lst "nested list"

fun flatten :: "nested list \<Rightarrow> string list" where
  "flatten [] = []"
| "flatten (Lst sub # l) = flatten sub @ flatten l"
| "flatten (Str s # l) = s # flatten l"

text \<open>
  The leaves of a nesting in left-to-right depth-first order, written from the words of
  the property and not from the code: a string is one leaf, a list has the leaves of its
  elements, one element after the other.
\<close>

fun leaves :: "nested \<Rightarrow> string list" where
  "leaves (Str s) = [s]"
| "leaves (Lst xs) = concat (map leaves xs)"

subsection \<open>Files as parsed by SALib.util\<close>

text \<open>
  Modelled from the spec: \<open>read_param_file\<close> of \<open>SALib.util\<close>, which is not in this
  module. A parameter file has one row per factor, a name and its bounds, and the
  order of the rows is the order of the factors; the dictionary read from it holds the
  names, the bounds and the number of rows, so that
  \<open>len(bounds) == len(names) == num_vars\<close>. The bounds are only passed on to the
  scaling, so their type is left open.
\<close>

type_synonym 'b parameter_file = "(string \<times> 'b) list"

record 'b param_dict =
  pf_names :: "string list"
  pf_bounds :: "'b list"
  pf_num_vars :: nat

definition read_param_file :: "'b parameter_file \<Rightarrow> 'b param_dict" where
  "read_param_file rows =
     \<lparr>pf_names = map fst rows, pf_bounds = map snd rows, pf_num_vars = length rows\<rparr>"

text \<open>
  Modelled from the spec: \<open>read_group_file\<close> of \<open>SALib.util\<close>. The value under
  \<open>'groups'\<close> has one pair per row of the group file: the name of the group and the
  list of the names of its members.
\<close>

type_synonym group_file = "(string \<times> string list) list"

subsection \<open>The group matrix\<close>

text \<open>
  A two-dimensional numpy array: its shape and its entries. \<open>np.zeros\<close> fills it with
  \<open>0.0\<close> and \<open>compute_groups\<close> stores \<open>1\<close> into it; both are exact as floats, so the
  entries are integers here. An assignment outside the shape raises \<open>IndexError\<close>.
\<close>

record matrix =
  shape :: "nat \<times> nat"
  entry :: "nat \<times> nat \<Rightarrow> int"

definition zeros :: "nat \<times> nat \<Rightarrow> matrix" where
  "zeros s = \<lparr>shape = s, entry = (\<lambda>_. 0)\<rparr>"

definition set_entry :: "matrix \<Rightarrow> nat \<Rightarrow> nat \<Rightarrow> int \<Rightarrow> error + matrix" where
  "set_entry M i j v =
     (if i < fst (shape M) \<and> j < snd (shape M)
      then Inr (M\<lparr>entry := (entry M)((i, j) := v)\<rparr>)
      else Inl IndexError)"

definition row_sum :: "matrix \<Rightarrow> nat \<Rightarrow> int" where
  "row_sum M i = (\<Sum>j \<leftarrow> [0..<snd (shape M)]. entry M (i, j))"

text \<open>
  \<open>dict([(x,i) for (i,x) in enumerate(actual_names)])\<close>: the pairs are stored one after
  the other, so a name that occurs twice keeps its last position.
\<close>

definition name_indices :: "string list \<Rightarrow> (string \<rightharpoonup> nat)" where
  "name_indices actual_names =
     fold (\<lambda>(i, x) m. m(x \<mapsto> i)) (enumerate 0 actual_names) Map.empty"

text \<open>The inner loop \<open>for param in group\<close>, for the group of column \<open>row\<close>.\<close>

fun fill_group :: "(string \<rightharpoonup> nat) \<Rightarrow> nat \<Rightarrow> string list \<Rightarrow> matrix \<Rightarrow> error + matrix" where
  "fill_group indices row [] output = Inr output"
| "fill_group indices row (param # grp) output =
     (case indices param of
        None \<Rightarrow> Inl KeyError
      | Some column \<Rightarrow>
          (case set_entry output column row 1 of
             Inl e \<Rightarrow> Inl e
           | Inr output' \<Rightarrow> fill_group indices row grp output'))"

text \<open>The outer loop \<open>for row, group in enumerate(param_names_from_gf)\<close>.\<close>

fun fill_groups :: "(string \<rightharpoonup> nat) \<Rightarrow> nat \<Rightarrow> string list list \<Rightarrow> matrix \<Rightarrow> error + matrix" where
  "fill_groups indices row [] output = Inr output"
| "fill_groups indices row (grp # rest) output =
     (case fill_group indices row grp output of
        Inl e \<Rightarrow> Inl e
      | Inr output' \<Rightarrow> fill_groups indices (Suc row) rest output')"

text \<open>
  \<open>Morris.compute_groups\<close>, on the dictionary of the parameter file and the parsed
  group file. The two \<open>print\<close> calls before the \<open>raise\<close> write to standard output only.
\<close>

definition compute_groups :: "'b param_dict \<Rightarrow> group_file \<Rightarrow> error + matrix" where
  "compute_groups pf data =
     (let group_names = map fst data;
          param_names_from_gf = map snd data;
          param_names_to_check = flatten (map (\<lambda>g. Lst (map Str g)) param_names_from_gf);
          actual_names = pf_names pf
      in if \<not> list_all (\<lambda>x. x \<in> set actual_names) param_names_to_check
         then Inl (ValueError msg_names_mismatch)
         else
           let indices = name_indices actual_names;
               output = zeros (pf_num_vars pf, length group_names)
           in fill_groups indices 0 param_names_from_gf output)"

text \<open>
  For the statements about groups: every name that the group file refers to is a name
  of the parameter file; and the number of groups (rows of the group file) that list
  the factor at position \<open>i\<close>.
\<close>

definition names_valid :: "string list \<Rightarrow> group_file \<Rightarrow> bool" where
  "names_valid actual_names data =
     list_all (\<lambda>g. list_all (\<lambda>p. p \<in> set actual_names) (snd g)) data"

definition membership_count :: "string list \<Rightarrow> group_file \<Rightarrow> nat \<Rightarrow> nat" where
  "membership_count actual_names data i =
     length (filter (\<lambda>g. actual_names ! i \<in> set (snd g)) data)"

subsection \<open>The class Sample\<close>

text \<open>
  The attributes of a \<open>Sample\<close>. \<open>output_sample\<close> is \<open>None\<close> or a numpy array; how the
  array is represented (\<open>'m\<close>) is open here, and is an address of the store below where
  copying matters.
\<close>

record ('b, 'm) Sample =
  parameter_file :: "'b parameter_file"
  num_vars :: nat
  bounds :: "'b list"
  parameter_names :: "string list"
  samples :: int
  output_sample :: "'m option"

definition Sample_init :: "'b parameter_file \<Rightarrow> int \<Rightarrow> ('b, 'm) Sample" where
  "Sample_init parameter_file' samples' =
     (let pf = read_param_file parameter_file'
      in \<lparr>parameter_file = parameter_file', num_vars = pf_num_vars pf, bounds = pf_bounds pf,
          parameter_names = pf_names pf, samples = samples', output_sample = None\<rparr>)"

definition get_input_sample_unscaled :: "('b, 'm, 'z) Sample_scheme \<Rightarrow> 'm option" where
  "get_input_sample_unscaled self = output_sample self"

text \<open>
  Arrays are mutable objects, and \<open>scale_samples\<close> changes the array it is given in
  place, so \<open>get_input_sample_scaled\<close> is modelled over a store: the list of the
  arrays allocated so far, an array's address being its position. \<open>copy\<close> allocates a
  new array with the same contents.

  \<open>scale_samples\<close> of \<open>SALib.util\<close> is not in this module. It is a parameter here:
  from the contents of the array it is given and the bounds, the exception it raises (if
  any) and the contents it leaves in that array. The contents of an array (\<open>'a\<close>) are
  left open. A reference cannot dangle, so \<open>copy\<close> is only ever applied to an address of
  the store.
\<close>

type_synonym 'a store = "'a list"

definition copy :: "'a store \<Rightarrow> nat \<Rightarrow> nat \<times> 'a store" where
  "copy h a = (length h, h @ [h ! a])"

definition get_input_sample_scaled ::
  "('a \<Rightarrow> 'b list \<Rightarrow> error option \<times> 'a) \<Rightarrow> ('b, nat, 'z) Sample_scheme \<Rightarrow> 'a store
     \<Rightarrow> (error + nat) \<times> 'a store" where
  "get_input_sample_scaled scale_samples self h =
     (case output_sample self of
        None \<Rightarrow> (Inl AttributeError, h)
      | Some a \<Rightarrow>
          let (scaled_samples, h1) = copy h a;
              (raised, contents) = scale_samples (h1 ! scaled_samples) (bounds self);
              h2 = h1[scaled_samples := contents]
          in (case raised of
                Some e \<Rightarrow> (Inl e, h2)
              | None \<Rightarrow> (Inr scaled_samples, h2)))"

text \<open>The contents of the array that \<open>get_input_sample_unscaled\<close> returns.\<close>

definition unscaled_contents :: "('b, nat, 'z) Sample_scheme \<Rightarrow> 'a store \<Rightarrow> 'a option" where
  "unscaled_contents self h = map_option (\<lambda>a. h ! a) (get_input_sample_unscaled self)"

subsection \<open>The class Morris\<close>

record ('b, 'm) Morris = "('b, 'm) Sample" +
  num_levels :: int
  grid_jump :: int
  groups :: "matrix option"
  optimal_trajectories :: "int option"

text \<open>
  The samplers \<open>morris_oat.sample\<close>, \<open>morris_groups.sample\<close> and
  \<open>morris_optimal.find_optimum_trajectories\<close> are not in this module: they are
  parameters. They draw from the process-wide random generators, whose state (\<open>'g\<close>)
  they take and return, and they may raise.
\<close>

record ('b, 'm, 'g) sampling =
  morris_oat_sample :: "int \<Rightarrow> 'b parameter_file \<Rightarrow> int \<Rightarrow> int \<Rightarrow> 'g \<Rightarrow> (error + 'm) \<times> 'g"
  morris_groups_sample :: "int \<Rightarrow> matrix option \<Rightarrow> int \<Rightarrow> int \<Rightarrow> 'g \<Rightarrow> (error + 'm) \<times> 'g"
  find_optimum_trajectories :: "'m \<Rightarrow> int \<Rightarrow> nat \<Rightarrow> int \<Rightarrow> 'g \<Rightarrow> (error + 'm) \<times> 'g"

text \<open>
  What a construction does outside the object: the state of the random generators, and
  the calls of the samplers made so far, in order.
\<close>

datatype call = Morris_oat_sample | Morris_groups_sample | Find_optimum_trajectories

record 'g world =
  generators :: 'g
  calls :: "call list"

definition invoke :: "call \<Rightarrow> ('g \<Rightarrow> (error + 'm) \<times> 'g) \<Rightarrow> 'g world \<Rightarrow> (error + 'm) \<times> 'g world" where
  "invoke c f w =
     (let (r, g') = f (generators w)
      in (r, \<lparr>generators = g', calls = calls w @ [c]\<rparr>))"

text \<open>Lines 101 to 109 of \<open>Morris.__init__\<close>: the checks of \<open>optimal_trajectories\<close>.\<close>

definition check_optimal_trajectories :: "int option \<Rightarrow> int \<Rightarrow> error + unit" where
  "check_optimal_trajectories optimal_trajectories' samples' =
     (case optimal_trajectories' of
        None \<Rightarrow> Inr ()
      | Some m \<Rightarrow>
          if m \<ge> samples' then Inl (ValueError msg_not_fewer)
          else if m > 10 then Inl (ValueError msg_too_large)
          else if m \<le> 1 then Inl (ValueError msg_too_small)
          else Inr ())"

definition create_sample ::
  "('b, 'm, 'g) sampling \<Rightarrow> ('b, 'm) Morris \<Rightarrow> 'g world \<Rightarrow> (error + ('b, 'm) Morris) \<times> 'g world" where
  "create_sample S self w =
     (case optimal_trajectories self of
        None \<Rightarrow>
          (case invoke Morris_oat_sample
                  (morris_oat_sample S (samples self) (parameter_file self)
                     (num_levels self) (grid_jump self)) w of
             (Inl e, w1) \<Rightarrow> (Inl e, w1)
           | (Inr optimal_sample, w1) \<Rightarrow>
               (Inr (self\<lparr>output_sample := Some optimal_sample\<rparr>), w1))
      | Some k \<Rightarrow>
          (case invoke Morris_oat_sample
                  (morris_oat_sample S (samples self) (parameter_file self)
                     (num_levels self) (grid_jump self)) w of
             (Inl e, w1) \<Rightarrow> (Inl e, w1)
           | (Inr sample, w1) \<Rightarrow>
               (case invoke Find_optimum_trajectories
                       (find_optimum_trajectories S sample (samples self) (num_vars self) k) w1 of
                  (Inl e, w2) \<Rightarrow> (Inl e, w2)
                | (Inr optimal_sample, w2) \<Rightarrow>
                    (Inr (self\<lparr>output_sample := Some optimal_sample\<rparr>), w2))))"

definition create_sample_with_groups ::
  "('b, 'm, 'g) sampling \<Rightarrow> ('b, 'm) Morris \<Rightarrow> 'g world \<Rightarrow> (error + ('b, 'm) Morris) \<times> 'g world" where
  "create_sample_with_groups S self w =
     (case invoke Morris_groups_sample
             (morris_groups_sample S (samples self) (groups self)
                (num_levels self) (grid_jump self)) w of
        (Inl e, w1) \<Rightarrow> (Inl e, w1)
      | (Inr sample, w1) \<Rightarrow>
          (case optimal_trajectories self of
             None \<Rightarrow> (Inr (self\<lparr>output_sample := Some sample\<rparr>), w1)
           | Some k \<Rightarrow>
               (case invoke Find_optimum_trajectories
                       (find_optimum_trajectories S sample (samples self) (num_vars self) k) w1 of
                  (Inl e, w2) \<Rightarrow> (Inl e, w2)
                | (Inr optimal_sample, w2) \<Rightarrow>
                    (Inr (self\<lparr>output_sample := Some optimal_sample\<rparr>), w2))))"

text \<open>
  \<open>Morris.__init__\<close>. The arguments \<open>parameter_file\<close> and \<open>group_file\<close> stand for the
  contents of the files at those paths; \<open>group_file\<close> is \<open>None\<close> when the argument is
  \<open>None\<close> or the empty path, which \<open>if group_file:\<close> treats alike. The result is the
  exception raised or the constructed object, with the world after the call.
\<close>

definition Morris_init ::
  "('b, 'm, 'g) sampling \<Rightarrow> 'b parameter_file \<Rightarrow> int \<Rightarrow> int \<Rightarrow> int \<Rightarrow> group_file option
     \<Rightarrow> int option \<Rightarrow> 'g world \<Rightarrow> (error + ('b, 'm) Morris) \<times> 'g world" where
  "Morris_init S parameter_file' samples' num_levels' grid_jump' group_file
       optimal_trajectories' w =
     (let pf = read_param_file parameter_file'
      in case (case group_file of
                 Some gf \<Rightarrow> map_sum id Some (compute_groups pf gf)
               | None \<Rightarrow> Inr None) of
           Inl e \<Rightarrow> (Inl e, w)
         | Inr groups' \<Rightarrow>
             let self = \<lparr>parameter_file = parameter_file', num_vars = pf_num_vars pf,
                         bounds = pf_bounds pf, parameter_names = pf_names pf,
                         samples = samples', output_sample = None,
                         num_levels = num_levels', grid_jump = grid_jump',
                         groups = groups', optimal_trajectories = optimal_trajectories'\<rparr>
             in (case check_optimal_trajectories optimal_trajectories' samples' of
                   Inl e \<Rightarrow> (Inl e, w)
                 | Inr _ \<Rightarrow>
                     if groups self = None then create_sample S self w
                     else create_sample_with_groups S self w))"

subsection \<open>The trajectory builder\<close>

text \<open>
  Modelled from the spec: the trajectory builder (\<open>morris_oat.sample\<close> and, with
  groups, \<open>morris_groups.sample\<close>), which is not in this module. The specification
  says of it: \<open>num_levels\<close> must be an even integer at least 2, \<open>grid_jump\<close> must be a
  positive integer less than \<open>num_levels\<close>, and a violation signals a
  \<open>ConfigurationError\<close>. What it builds on a valid grid stays a parameter.
\<close>

definition valid_grid :: "int \<Rightarrow> int \<Rightarrow> bool" where
  "valid_grid num_levels' grid_jump' =
     (even num_levels' \<and> 2 \<le> num_levels' \<and> 0 < grid_jump' \<and> grid_jump' < num_levels')"

definition build :: "(int \<Rightarrow> int \<Rightarrow> 'g \<Rightarrow> (error + 'm) \<times> 'g) \<Rightarrow> int \<Rightarrow> int \<Rightarrow> 'g \<Rightarrow> (error + 'm) \<times> 'g" where
  "build construct num_levels' grid_jump' g =
     (if valid_grid num_levels' grid_jump' then construct num_levels' grid_jump' g
      else (Inl ConfigurationError, g))"

definition spec_sampling :: "('b, 'm, 'g) sampling \<Rightarrow> ('b, 'm, 'g) sampling" where
  "spec_sampling S =
     \<lparr>morris_oat_sample = (\<lambda>N pfile. build (morris_oat_sample S N pfile)),
      morris_groups_sample = (\<lambda>N G. build (morris_groups_sample S N G)),
      find_optimum_trajectories = find_optimum_trajectories S\<rparr>"

section \<open>Properties\<close>

subsection \<open>flatten\<close>

lemma flatten_append: "flatten (xs @ ys) = flatten xs @ flatten ys"
  by (induction xs rule: flatten.induct) simp_all

lemma flatten_leaves: "flatten l = concat (map leaves l)"
  by (induction l rule: flatten.induct) simp_all

subsection \<open>compute_groups\<close>

lemma enumerate_snoc: "enumerate n (xs @ [x]) = enumerate n xs @ [(n + length xs, x)]"
  by (simp add: enumerate_append_eq)

lemma name_indices_Nil: "name_indices [] = Map.empty"
  by (simp add: name_indices_def)

lemma name_indices_snoc: "name_indices (xs @ [x]) = (name_indices xs)(x \<mapsto> length xs)"
  by (simp add: name_indices_def enumerate_append_eq)

lemma name_indices_Some:
  "name_indices xs p = Some i \<Longrightarrow> i < length xs \<and> xs ! i = p"
proof (induction xs arbitrary: i rule: rev_induct)
  case Nil
  then show ?case by (simp add: name_indices_Nil)
next
  case (snoc x xs)
  then show ?case
    by (auto simp: name_indices_snoc nth_append split: if_splits)
qed

lemma name_indices_dom: "dom (name_indices xs) = set xs"
proof (induction xs rule: rev_induct)
  case Nil
  then show ?case by (simp add: name_indices_Nil)
next
  case (snoc x xs)
  have "dom (name_indices (xs @ [x])) = insert x (dom (name_indices xs))"
    unfolding name_indices_snoc by simp
  with snoc show ?case by simp
qed

lemma name_indices_distinct:
  "distinct xs \<Longrightarrow> i < length xs \<Longrightarrow> name_indices xs (xs ! i) = Some i"
proof -
  assume d: "distinct xs" and i: "i < length xs"
  then have "xs ! i \<in> dom (name_indices xs)" by (simp add: name_indices_dom)
  then obtain k where k: "name_indices xs (xs ! i) = Some k" by blast
  from name_indices_Some [OF k] have "k < length xs" "xs ! k = xs ! i" by simp_all
  with d i have "k = i" by (simp add: nth_eq_iff_index_eq)
  with k show ?thesis by simp
qed

lemma flatten_flat: "flatten (map (\<lambda>g. Lst (map Str g)) xss) = concat xss"
proof -
  have str: "flatten (map Str g) = g" for g by (induction g) simp_all
  show ?thesis by (induction xss) (simp_all add: str)
qed

lemma fill_group_ok:
  assumes "\<forall>p \<in> set grp. \<exists>c. indices p = Some c \<and> c < fst (shape M)"
      and "row < snd (shape M)"
  shows "\<exists>M'. fill_group indices row grp M = Inr M' \<and> shape M' = shape M \<and>
           (\<forall>i j. entry M' (i, j) =
              (if j = row \<and> (\<exists>p \<in> set grp. indices p = Some i) then 1 else entry M (i, j)))"
  using assms
proof (induction grp arbitrary: M)
  case Nil
  then show ?case by simp
next
  case (Cons p grp)
  from Cons.prems obtain c where c: "indices p = Some c" "c < fst (shape M)" by auto
  let ?M1 = "M\<lparr>entry := (entry M)((c, row) := 1)\<rparr>"
  have s: "set_entry M c row 1 = Inr ?M1" using c Cons.prems by (simp add: set_entry_def)
  have "\<forall>p \<in> set grp. \<exists>c. indices p = Some c \<and> c < fst (shape ?M1)" using Cons.prems by simp
  moreover have "row < snd (shape ?M1)" using Cons.prems by simp
  ultimately obtain M' where M': "fill_group indices row grp ?M1 = Inr M'" "shape M' = shape ?M1"
    "\<forall>i j. entry M' (i, j) =
       (if j = row \<and> (\<exists>p \<in> set grp. indices p = Some i) then 1 else entry ?M1 (i, j))"
    using Cons.IH [of ?M1] by blast
  have "fill_group indices row (p # grp) M = Inr M'" using c s M' by simp
  moreover have "shape M' = shape M" using M' by simp
  moreover have "\<forall>i j. entry M' (i, j) =
       (if j = row \<and> (\<exists>q \<in> set (p # grp). indices q = Some i) then 1 else entry M (i, j))"
    using M'(3) c by auto
  ultimately show ?case by blast
qed

lemma fill_groups_ok:
  assumes "\<forall>g \<in> set gs. \<forall>p \<in> set g. \<exists>c. indices p = Some c \<and> c < fst (shape M)"
      and "row + length gs \<le> snd (shape M)"
  shows "\<exists>M'. fill_groups indices row gs M = Inr M' \<and> shape M' = shape M \<and>
           (\<forall>i j. entry M' (i, j) =
              (if row \<le> j \<and> j < row + length gs \<and> (\<exists>p \<in> set (gs ! (j - row)). indices p = Some i)
               then 1 else entry M (i, j)))"
  using assms
proof (induction gs arbitrary: M row)
  case Nil
  then show ?case by simp
next
  case (Cons g gs)
  have "\<forall>p \<in> set g. \<exists>c. indices p = Some c \<and> c < fst (shape M)" using Cons.prems by simp
  moreover have "row < snd (shape M)" using Cons.prems by simp
  ultimately obtain M1 where M1: "fill_group indices row g M = Inr M1" "shape M1 = shape M"
    "\<forall>i j. entry M1 (i, j) =
       (if j = row \<and> (\<exists>p \<in> set g. indices p = Some i) then 1 else entry M (i, j))"
    using fill_group_ok [of g indices M row] by blast
  have "\<forall>g \<in> set gs. \<forall>p \<in> set g. \<exists>c. indices p = Some c \<and> c < fst (shape M1)"
    using Cons.prems M1(2) by simp
  moreover have "Suc row + length gs \<le> snd (shape M1)" using Cons.prems M1(2) by simp
  ultimately obtain M' where M': "fill_groups indices (Suc row) gs M1 = Inr M'" "shape M' = shape M1"
    "\<forall>i j. entry M' (i, j) =
       (if Suc row \<le> j \<and> j < Suc row + length gs \<and> (\<exists>p \<in> set (gs ! (j - Suc row)). indices p = Some i)
        then 1 else entry M1 (i, j))"
    using Cons.IH [of M1 "Suc row"] by blast
  have "fill_groups indices row (g # gs) M = Inr M'" using M1 M' by simp
  moreover have "shape M' = shape M" using M1 M' by simp
  moreover have "entry M' (i, j) =
       (if row \<le> j \<and> j < row + length (g # gs) \<and> (\<exists>p \<in> set ((g # gs) ! (j - row)). indices p = Some i)
        then 1 else entry M (i, j))" for i j
  proof (cases "j = row")
    case True
    then show ?thesis using M'(3) M1(3) by simp
  next
    case False
    show ?thesis
    proof (cases "j < row")
      case True
      then show ?thesis using M'(3) M1(3) by simp
    next
      case above: False
      with False have "j - row = Suc (j - Suc row)" by simp
      then have "(g # gs) ! (j - row) = gs ! (j - Suc row)" by simp
      moreover have "row \<le> j \<and> Suc row \<le> j" using above False by simp
      ultimately show ?thesis using M'(3) M1(3) False by auto
    qed
  qed
  ultimately show ?case by blast
qed


lemma sum_list_indicator:
  "(\<Sum>j \<leftarrow> xs. if P j then (1::int) else 0) = int (length (filter P xs))"
  by (induction xs) simp_all

lemma length_filter_upt: "length (filter P [0..<n]) = card {j. j < n \<and> P j}"
proof -
  have "{i. i < n \<and> P ([0..<n] ! i)} = {j. j < n \<and> P j}" by auto
  then show ?thesis by (simp add: length_filter_conv_card)
qed

lemma fill_group_error:
  "fill_group indices row grp M = Inl e \<Longrightarrow> e = KeyError \<or> e = IndexError"
  by (induction grp arbitrary: M)
     (auto simp: set_entry_def split: option.splits sum.splits if_splits)

lemma fill_groups_error:
  "fill_groups indices row gs M = Inl e \<Longrightarrow> e = KeyError \<or> e = IndexError"
  by (induction gs arbitrary: M row) (auto split: sum.splits dest: fill_group_error)

lemma names_valid_iff:
  "names_valid ns data \<longleftrightarrow> (\<forall>g \<in> set data. \<forall>p \<in> set (snd g). p \<in> set ns)"
  by (simp add: names_valid_def list_all_iff)

lemma names_check:
  "list_all (\<lambda>x. x \<in> set ns) (flatten (map (\<lambda>g. Lst (map Str g)) (map snd data)))
     = names_valid ns data"
  by (simp only: flatten_flat) (auto simp: list_all_iff names_valid_iff)

lemma compute_groups_entries:
  assumes valid: "names_valid (pf_names pf) data"
      and nv: "pf_num_vars pf = length (pf_names pf)"
  shows "\<exists>M. compute_groups pf data = Inr M \<and> shape M = (pf_num_vars pf, length data) \<and>
           (\<forall>i j. entry M (i, j) =
              (if j < length data \<and>
                  (\<exists>p \<in> set (snd (data ! j)). name_indices (pf_names pf) p = Some i)
               then 1 else 0))"
proof -
  let ?ix = "name_indices (pf_names pf)"
  let ?Z = "zeros (pf_num_vars pf, length (map fst data))"
  have "\<forall>g \<in> set (map snd data). \<forall>p \<in> set g. \<exists>c. ?ix p = Some c \<and> c < fst (shape ?Z)"
  proof (intro ballI)
    fix g p assume g: "g \<in> set (map snd data)" and p: "p \<in> set g"
    with valid have "p \<in> set (pf_names pf)" by (auto simp: names_valid_iff)
    then have "p \<in> dom ?ix" by (simp add: name_indices_dom)
    then obtain c where c: "?ix p = Some c" by blast
    with name_indices_Some [OF c] nv show "\<exists>c. ?ix p = Some c \<and> c < fst (shape ?Z)"
      by (simp add: zeros_def)
  qed
  moreover have "0 + length (map snd data) \<le> snd (shape ?Z)" by (simp add: zeros_def)
  ultimately obtain M where M: "fill_groups ?ix 0 (map snd data) ?Z = Inr M"
    "shape M = shape ?Z"
    "\<forall>i j. entry M (i, j) =
       (if 0 \<le> j \<and> j < 0 + length (map snd data) \<and>
           (\<exists>p \<in> set (map snd data ! (j - 0)). ?ix p = Some i)
        then 1 else entry ?Z (i, j))"
    using fill_groups_ok [of "map snd data" ?ix ?Z 0] by blast
  have "compute_groups pf data = Inr M"
    unfolding compute_groups_def Let_def names_check using M(1) valid by simp
  moreover have "shape M = (pf_num_vars pf, length data)" using M(2) by (simp add: zeros_def)
  moreover have "\<forall>i j. entry M (i, j) =
       (if j < length data \<and> (\<exists>p \<in> set (snd (data ! j)). ?ix p = Some i) then 1 else 0)"
    using M(3) by (auto simp: zeros_def)
  ultimately show ?thesis by blast
qed

lemma member_index_distinct:
  assumes "distinct ns" and "i < length ns"
  shows "(\<exists>p \<in> set g. name_indices ns p = Some i) \<longleftrightarrow> ns ! i \<in> set g"
proof
  assume "\<exists>p \<in> set g. name_indices ns p = Some i"
  then obtain p where "p \<in> set g" "name_indices ns p = Some i" by blast
  with name_indices_Some [of ns p i] show "ns ! i \<in> set g" by simp
next
  assume "ns ! i \<in> set g"
  with name_indices_distinct [OF assms] show "\<exists>p \<in> set g. name_indices ns p = Some i" by blast
qed

subsection \<open>Membership and row sums\<close>

lemma membership_count_upt:
  "membership_count ns data i = card {j. j < length data \<and> ns ! i \<in> set (snd (data ! j))}"
proof -
  let ?P = "\<lambda>g. ns ! i \<in> set (snd g)"
  have "filter ?P data = filter ?P (map (\<lambda>j. data ! j) [0..<length data])"
    by (simp add: map_nth)
  then have "length (filter ?P data) = length (filter (\<lambda>j. ?P (data ! j)) [0..<length data])"
    by (simp add: filter_map comp_def)
  then show ?thesis by (simp add: membership_count_def length_filter_upt)
qed

lemma compute_groups_distinct:
  assumes valid: "names_valid (map fst rows) data"
      and dist: "distinct (map fst rows)"
  shows "\<exists>M. compute_groups (read_param_file rows) data = Inr M \<and>
           shape M = (length rows, length data) \<and>
           (\<forall>i j. entry M (i, j) =
              (if i < length rows \<and> j < length data \<and> fst (rows ! i) \<in> set (snd (data ! j))
               then 1 else 0))"
proof -
  let ?pf = "read_param_file rows"
  have names: "pf_names ?pf = map fst rows" and nv: "pf_num_vars ?pf = length (pf_names ?pf)"
    by (simp_all add: read_param_file_def)
  from compute_groups_entries [of ?pf data] valid names nv
  obtain M where M: "compute_groups ?pf data = Inr M" "shape M = (pf_num_vars ?pf, length data)"
    "\<forall>i j. entry M (i, j) =
       (if j < length data \<and> (\<exists>p \<in> set (snd (data ! j)). name_indices (map fst rows) p = Some i)
        then 1 else 0)"
    by auto
  have "entry M (i, j) =
      (if i < length rows \<and> j < length data \<and> fst (rows ! i) \<in> set (snd (data ! j)) then 1 else 0)"
    for i j
  proof (cases "i < length rows")
    case True
    then have "(\<exists>p \<in> set (snd (data ! j)). name_indices (map fst rows) p = Some i)
        \<longleftrightarrow> fst (rows ! i) \<in> set (snd (data ! j))"
      using member_index_distinct [OF dist, of i "snd (data ! j)"] by simp
    with M(3) True show ?thesis by simp
  next
    case False
    have "\<not> (\<exists>p \<in> set (snd (data ! j)). name_indices (map fst rows) p = Some i)"
      using False name_indices_Some [of "map fst rows" _ i] by auto
    with M(3) False show ?thesis by simp
  qed
  with M(1,2) show ?thesis by (auto simp: read_param_file_def)
qed

lemma row_sum_membership:
  assumes M: "\<forall>i j. entry M (i, j) =
              (if i < n \<and> j < length data \<and> ns ! i \<in> set (snd (data ! j)) then 1 else 0)"
      and sh: "snd (shape M) = length data" and i: "i < n"
  shows "row_sum M i = int (membership_count ns data i)"
proof -
  have "row_sum M i = (\<Sum>j \<leftarrow> [0..<length data]. if ns ! i \<in> set (snd (data ! j)) then 1 else 0)"
    unfolding row_sum_def sh using M i by (intro arg_cong [where f = sum_list] map_cong) auto
  also have "\<dots> = int (length (filter (\<lambda>j. ns ! i \<in> set (snd (data ! j))) [0..<length data]))"
    by (rule sum_list_indicator)
  also have "\<dots> = int (membership_count ns data i)"
    by (simp add: membership_count_upt length_filter_upt)
  finally show ?thesis .
qed

lemma compute_groups_read_error:
  "compute_groups (read_param_file rows) data = Inl e \<Longrightarrow> e = ValueError msg_names_mismatch"
proof (cases "names_valid (map fst rows) data")
  case True
  assume "compute_groups (read_param_file rows) data = Inl e"
  with compute_groups_entries [of "read_param_file rows" data] True show ?thesis
    by (auto simp: read_param_file_def)
next
  case False
  assume e: "compute_groups (read_param_file rows) data = Inl e"
  have "compute_groups (read_param_file rows) data = Inl (ValueError msg_names_mismatch)"
    unfolding compute_groups_def Let_def names_check using False
    by (simp add: read_param_file_def)
  with e show ?thesis by simp
qed

subsection \<open>The constructor\<close>

lemma check_optimal_trajectories_rejects:
  "samples' \<le> m \<or> 10 < m \<or> m \<le> 1 \<Longrightarrow>
     \<exists>msg. check_optimal_trajectories (Some m) samples' = Inl (ValueError msg)"
  by (auto simp: check_optimal_trajectories_def)

lemma Morris_init_rejected:
  assumes "check_optimal_trajectories opt samples' = Inl e"
  shows "\<exists>e'. Morris_init S pfile samples' nl gj gf opt w = (Inl e', w) \<and>
           (e' = e \<or> e' = ValueError msg_names_mismatch)"
proof (cases gf)
  case None
  with assms show ?thesis by (simp add: Morris_init_def)
next
  case (Some data)
  show ?thesis
  proof (cases "compute_groups (read_param_file pfile) data")
    case (Inl e')
    with compute_groups_read_error [OF Inl] Some show ?thesis by (simp add: Morris_init_def)
  next
    case (Inr G)
    with Some assms show ?thesis by (simp add: Morris_init_def)
  qed
qed

lemma invoke_build_invalid:
  "\<not> valid_grid nl gj \<Longrightarrow>
     invoke c (build f nl gj) w = (Inl ConfigurationError, w\<lparr>calls := calls w @ [c]\<rparr>)"
  by (simp add: invoke_def build_def)

lemma create_sample_invalid:
  "\<not> valid_grid (num_levels self) (grid_jump self) \<Longrightarrow>
     fst (create_sample (spec_sampling S) self w) = Inl ConfigurationError"
  by (simp add: create_sample_def spec_sampling_def invoke_build_invalid split: option.splits)

lemma create_sample_with_groups_invalid:
  "\<not> valid_grid (num_levels self) (grid_jump self) \<Longrightarrow>
     fst (create_sample_with_groups (spec_sampling S) self w) = Inl ConfigurationError"
  by (auto simp: create_sample_with_groups_def spec_sampling_def invoke_build_invalid
      split: option.splits)

text \<open>
  A construction that succeeds has called a sampler and has set \<open>output_sample\<close>: the
  record of the calls is not idle.
\<close>

lemma invoke_calls: "invoke c f w = (r, w') \<Longrightarrow> calls w' = calls w @ [c]"
  by (auto simp: invoke_def split: prod.splits)

lemma create_sample_success:
  "create_sample S self w = (Inr obj, w') \<Longrightarrow>
     calls w' \<noteq> calls w \<and> output_sample obj \<noteq> None"
  by (auto simp: create_sample_def split: option.splits prod.splits sum.splits
      dest!: invoke_calls)

lemma create_sample_with_groups_success:
  "create_sample_with_groups S self w = (Inr obj, w') \<Longrightarrow>
     calls w' \<noteq> calls w \<and> output_sample obj \<noteq> None"
  by (auto simp: create_sample_with_groups_def split: option.splits prod.splits sum.splits
      dest!: invoke_calls)

lemma Morris_init_success:
  "Morris_init S pfile samples' nl gj gf opt w = (Inr obj, w') \<Longrightarrow>
     calls w' \<noteq> calls w \<and> output_sample obj \<noteq> None"
  by (auto simp: Morris_init_def Let_def split: option.splits sum.splits if_splits
      dest: create_sample_success create_sample_with_groups_success)

text \<open>
  Past the checks the constructor always calls a sampler: an exception it then raises
  is the one of \<open>compute_groups\<close>, raised in the world it started in, or comes after a
  call of a sampler.
\<close>

lemma create_sample_calls:
  "create_sample S self w = (r, w') \<Longrightarrow> calls w' \<noteq> calls w"
  by (auto simp: create_sample_def split: option.splits prod.splits sum.splits
      dest!: invoke_calls)

lemma create_sample_with_groups_calls:
  "create_sample_with_groups S self w = (r, w') \<Longrightarrow> calls w' \<noteq> calls w"
  by (auto simp: create_sample_with_groups_def split: option.splits prod.splits sum.splits
      dest!: invoke_calls)

lemma Morris_init_accepted_error:
  assumes ok: "check_optimal_trajectories opt samples' = Inr ()"
      and init: "Morris_init S pfile samples' nl gj gf opt w = (Inl e, w')"
  shows "(\<exists>data. gf = Some data \<and> compute_groups (read_param_file pfile) data = Inl e \<and> w' = w)
           \<or> calls w' \<noteq> calls w"
proof (cases gf)
  case None
  with ok init show ?thesis
    by (auto simp: Morris_init_def Let_def dest: create_sample_calls)
next
  case (Some data)
  show ?thesis
  proof (cases "compute_groups (read_param_file pfile) data")
    case (Inl e')
    with Some init show ?thesis by (simp add: Morris_init_def)
  next
    case (Inr G)
    with Some ok init show ?thesis
      by (auto simp: Morris_init_def Let_def dest: create_sample_with_groups_calls)
  qed
qed

section \<open>The claims\<close>

subsection \<open>The checks of the number of optimal trajectories\<close>

text \<open>
  C1. For every construction of a Morris sample with a requested number \<open>m\<close> of optimal
  trajectories that is not \<open>None\<close>: if \<open>m >= samples\<close>, or \<open>m > 10\<close>, or \<open>m <= 1\<close>, the
  checks of lines 101 to 109 raise a \<open>ValueError\<close> and the constructor raises a
  configuration error. If \<open>1 < m < samples\<close> and \<open>m <= 10\<close> no error is raised for \<open>m\<close>:
  the checks raise nothing, and the constructor goes on to the sampling, that is, it is
  \<open>create_sample\<close> on the new object when there is no group file and
  \<open>create_sample_with_groups\<close> when \<open>compute_groups\<close> returned a matrix; an
  exception of the constructor is then the one of \<open>compute_groups\<close> or is raised after a
  sampler has been called.
\<close>

theorem optimal_trajectories_preconditions:
  "(samples' \<le> m \<or> 10 < m \<or> m \<le> 1 \<longrightarrow>
      (\<exists>msg. check_optimal_trajectories (Some m) samples' = Inl (ValueError msg)) \<and>
      (\<exists>e. fst (Morris_init S pfile samples' nl gj gf (Some m) w) = Inl e \<and> configuration_error e)) \<and>
   (1 < m \<and> m < samples' \<and> m \<le> 10 \<longrightarrow>
      check_optimal_trajectories (Some m) samples' = Inr () \<and>
      Morris_init S pfile samples' nl gj None (Some m) w =
        create_sample S
          \<lparr>parameter_file = pfile, num_vars = pf_num_vars (read_param_file pfile),
            bounds = pf_bounds (read_param_file pfile),
            parameter_names = pf_names (read_param_file pfile),
            samples = samples', output_sample = None, num_levels = nl, grid_jump = gj,
            groups = None, optimal_trajectories = Some m\<rparr> w \<and>
      (\<forall>data G. compute_groups (read_param_file pfile) data = Inr G \<longrightarrow>
         Morris_init S pfile samples' nl gj (Some data) (Some m) w =
           create_sample_with_groups S
             \<lparr>parameter_file = pfile, num_vars = pf_num_vars (read_param_file pfile),
               bounds = pf_bounds (read_param_file pfile),
               parameter_names = pf_names (read_param_file pfile),
               samples = samples', output_sample = None, num_levels = nl, grid_jump = gj,
               groups = Some G, optimal_trajectories = Some m\<rparr> w) \<and>
      (\<forall>e w'. Morris_init S pfile samples' nl gj gf (Some m) w = (Inl e, w') \<longrightarrow>
         (\<exists>data. gf = Some data \<and> compute_groups (read_param_file pfile) data = Inl e \<and> w' = w)
           \<or> calls w' \<noteq> calls w))"
proof (intro conjI impI)
  assume v: "samples' \<le> m \<or> 10 < m \<or> m \<le> 1"
  from check_optimal_trajectories_rejects [OF v]
  obtain msg where msg: "check_optimal_trajectories (Some m) samples' = Inl (ValueError msg)" ..
  then show "\<exists>msg. check_optimal_trajectories (Some m) samples' = Inl (ValueError msg)" ..
  from Morris_init_rejected [OF msg, of S pfile nl gj gf w]
  show "\<exists>e. fst (Morris_init S pfile samples' nl gj gf (Some m) w) = Inl e \<and> configuration_error e"
    by auto
next
  assume a: "1 < m \<and> m < samples' \<and> m \<le> 10"
  then show ok: "check_optimal_trajectories (Some m) samples' = Inr ()"
    by (simp add: check_optimal_trajectories_def)
  from ok show "Morris_init S pfile samples' nl gj None (Some m) w =
        create_sample S
          \<lparr>parameter_file = pfile, num_vars = pf_num_vars (read_param_file pfile),
            bounds = pf_bounds (read_param_file pfile),
            parameter_names = pf_names (read_param_file pfile),
            samples = samples', output_sample = None, num_levels = nl, grid_jump = gj,
            groups = None, optimal_trajectories = Some m\<rparr> w"
    by (simp add: Morris_init_def Let_def)
  from ok show "\<forall>data G. compute_groups (read_param_file pfile) data = Inr G \<longrightarrow>
         Morris_init S pfile samples' nl gj (Some data) (Some m) w =
           create_sample_with_groups S
             \<lparr>parameter_file = pfile, num_vars = pf_num_vars (read_param_file pfile),
               bounds = pf_bounds (read_param_file pfile),
               parameter_names = pf_names (read_param_file pfile),
               samples = samples', output_sample = None, num_levels = nl, grid_jump = gj,
               groups = Some G, optimal_trajectories = Some m\<rparr> w"
    by (simp add: Morris_init_def Let_def)
  from ok show "\<forall>e w'. Morris_init S pfile samples' nl gj gf (Some m) w = (Inl e, w') \<longrightarrow>
         (\<exists>data. gf = Some data \<and> compute_groups (read_param_file pfile) data = Inl e \<and> w' = w)
           \<or> calls w' \<noteq> calls w"
    using Morris_init_accepted_error [of "Some m" samples' S pfile nl gj gf w] by blast
qed

text \<open>
  The theorem at \<open>m = 11\<close> and at \<open>m = 3\<close> with five samples: the first is rejected,
  the second passes the checks and, with samplers that succeed, the constructor returns
  the object with its sample, after one call of each of the two samplers.
\<close>

theorem optimal_trajectories_preconditions_witness:
  "((5::int) \<le> 11 \<or> (10::int) < 11 \<or> (11::int) \<le> 1) \<and>
   check_optimal_trajectories (Some 11) 5 = Inl (ValueError msg_not_fewer) \<and>
   fst (Morris_init
          \<lparr>morris_oat_sample = (\<lambda>N pfile nl gj g. (Inr (0::nat), Suc g)),
           morris_groups_sample = (\<lambda>N G nl gj g. (Inr 0, Suc g)),
           find_optimum_trajectories = (\<lambda>m N nv k g. (Inr m, Suc g))\<rparr>
          [(''a'', ())] 5 4 2 None (Some 11) \<lparr>generators = 0::nat, calls = []\<rparr>)
     = Inl (ValueError msg_not_fewer) \<and>
   ((1::int) < 3 \<and> (3::int) < 5 \<and> (3::int) \<le> 10) \<and>
   check_optimal_trajectories (Some 3) 5 = Inr () \<and>
   Morris_init
     \<lparr>morris_oat_sample = (\<lambda>N pfile nl gj g. (Inr (0::nat), Suc g)),
      morris_groups_sample = (\<lambda>N G nl gj g. (Inr 0, Suc g)),
      find_optimum_trajectories = (\<lambda>m N nv k g. (Inr m, Suc g))\<rparr>
     [(''a'', ())] 5 4 2 None (Some 3) \<lparr>generators = 0::nat, calls = []\<rparr>
     = (Inr \<lparr>parameter_file = [(''a'', ())], num_vars = 1, bounds = [()],
              parameter_names = [''a''], samples = 5, output_sample = Some 0,
              num_levels = 4, grid_jump = 2, groups = None,
              optimal_trajectories = Some 3\<rparr>,
        \<lparr>generators = 2, calls = [Morris_oat_sample, Find_optimum_trajectories]\<rparr>)"
proof -
  let ?S = "\<lparr>morris_oat_sample = (\<lambda>N (pfile :: unit parameter_file) nl gj g. (Inr (0::nat), Suc g)),
      morris_groups_sample = (\<lambda>N G nl gj g. (Inr 0, Suc g)),
      find_optimum_trajectories = (\<lambda>m N nv k g. (Inr m, Suc g))\<rparr>"
  let ?w = "\<lparr>generators = 0::nat, calls = []\<rparr>"
  have h1: "(5::int) \<le> 11 \<or> (10::int) < 11 \<or> (11::int) \<le> 1" by simp
  have h2: "(1::int) < 3 \<and> (3::int) < 5 \<and> (3::int) \<le> 10" by simp
  from optimal_trajectories_preconditions
      [where m = 3 and samples' = 5 and S = ?S and pfile = "[(''a'', ())]" and nl = 4
         and gj = 2 and w = ?w] h2
  have init: "Morris_init ?S [(''a'', ())] 5 4 2 None (Some 3) ?w =
        create_sample ?S
          \<lparr>parameter_file = [(''a'', ())], num_vars = pf_num_vars (read_param_file [(''a'', ())]),
            bounds = pf_bounds (read_param_file [(''a'', ())]),
            parameter_names = pf_names (read_param_file [(''a'', ())]),
            samples = 5, output_sample = None, num_levels = 4, grid_jump = 2,
            groups = None, optimal_trajectories = Some 3\<rparr> ?w"
    and ok: "check_optimal_trajectories (Some 3) 5 = Inr ()"
    by blast+
  from optimal_trajectories_preconditions
      [where m = 11 and samples' = 5 and S = ?S and pfile = "[(''a'', ())]" and nl = 4
         and gj = 2 and w = ?w and gf = None] h1
  have "\<exists>e. fst (Morris_init ?S [(''a'', ())] 5 4 2 None (Some 11) ?w) = Inl e" by blast
  then have rej: "fst (Morris_init ?S [(''a'', ())] 5 4 2 None (Some 11) ?w)
      = Inl (ValueError msg_not_fewer)"
    by (simp add: Morris_init_def check_optimal_trajectories_def)
  have c11: "check_optimal_trajectories (Some 11) 5 = Inl (ValueError msg_not_fewer)"
    by (simp add: check_optimal_trajectories_def)
  have run: "create_sample ?S
          \<lparr>parameter_file = [(''a'', ())], num_vars = pf_num_vars (read_param_file [(''a'', ())]),
            bounds = pf_bounds (read_param_file [(''a'', ())]),
            parameter_names = pf_names (read_param_file [(''a'', ())]),
            samples = 5, output_sample = None, num_levels = 4, grid_jump = 2,
            groups = None, optimal_trajectories = Some 3\<rparr> ?w
      = (Inr \<lparr>parameter_file = [(''a'', ())], num_vars = 1, bounds = [()],
              parameter_names = [''a''], samples = 5, output_sample = Some 0,
              num_levels = 4, grid_jump = 2, groups = None,
              optimal_trajectories = Some 3\<rparr>,
        \<lparr>generators = 2, calls = [Morris_oat_sample, Find_optimum_trajectories]\<rparr>)"
    by (simp add: create_sample_def invoke_def read_param_file_def)
  from h1 h2 c11 rej ok init run show ?thesis by simp
qed

text \<open>
  C10. When several of the checks fail at once they are applied in the order
  \<open>m >= samples\<close>, then \<open>m > 10\<close>, then \<open>m <= 1\<close>, and the error of the first failing
  one is raised, by the checks and by the constructor (here without a group file); in
  particular \<open>m = 11\<close> with at most eleven samples raises the "less than the number of
  samples" error and not the "greater than 10" one. The three messages differ.
\<close>

theorem optimal_trajectories_check_order:
  "(samples' \<le> m \<longrightarrow>
      check_optimal_trajectories (Some m) samples' = Inl (ValueError msg_not_fewer) \<and>
      Morris_init S pfile samples' nl gj None (Some m) w = (Inl (ValueError msg_not_fewer), w)) \<and>
   (m < samples' \<and> 10 < m \<longrightarrow>
      check_optimal_trajectories (Some m) samples' = Inl (ValueError msg_too_large) \<and>
      Morris_init S pfile samples' nl gj None (Some m) w = (Inl (ValueError msg_too_large), w)) \<and>
   (m < samples' \<and> m \<le> 10 \<and> m \<le> 1 \<longrightarrow>
      check_optimal_trajectories (Some m) samples' = Inl (ValueError msg_too_small) \<and>
      Morris_init S pfile samples' nl gj None (Some m) w = (Inl (ValueError msg_too_small), w)) \<and>
   (samples' \<le> 11 \<longrightarrow>
      check_optimal_trajectories (Some 11) samples' = Inl (ValueError msg_not_fewer)) \<and>
   msg_not_fewer \<noteq> msg_too_large \<and> msg_not_fewer \<noteq> msg_too_small \<and>
   msg_too_large \<noteq> msg_too_small"
  by (simp add: check_optimal_trajectories_def Morris_init_def
        msg_not_fewer_def msg_too_large_def msg_too_small_def)

text \<open>
  The theorem at \<open>m = 11\<close> with 5, 20 and 11 samples, and at \<open>m = 1\<close> with 5 samples.
\<close>

theorem optimal_trajectories_check_order_witness:
  "(5::int) \<le> 11 \<and>
   check_optimal_trajectories (Some 11) 5 = Inl (ValueError msg_not_fewer) \<and>
   ((11::int) < 20 \<and> (10::int) < 11) \<and>
   check_optimal_trajectories (Some 11) 20 = Inl (ValueError msg_too_large) \<and>
   ((1::int) < 5 \<and> (1::int) \<le> 10 \<and> (1::int) \<le> 1) \<and>
   check_optimal_trajectories (Some 1) 5 = Inl (ValueError msg_too_small) \<and>
   (11::int) \<le> 11 \<and>
   check_optimal_trajectories (Some 11) 11 = Inl (ValueError msg_not_fewer)"
  using optimal_trajectories_check_order [where m = 11 and samples' = 5]
    optimal_trajectories_check_order [where m = 11 and samples' = 20]
    optimal_trajectories_check_order [where m = 1 and samples' = 5]
    optimal_trajectories_check_order [where m = 11 and samples' = 11]
  by (simp add: check_optimal_trajectories_def)

text \<open>
  C8. For every construction whose number of optimal trajectories violates one of the
  checks, the error is raised before any sampling: the constructor returns an exception
  and no object, so no \<open>output_sample\<close> exists, and the world is the one it started in,
  with no call of a sampler recorded and the random generators untouched. This holds
  whatever the samplers do and whether or not a group file is given.
\<close>

theorem rejected_before_sampling:
  assumes "samples' \<le> m \<or> 10 < m \<or> m \<le> 1"
  shows "\<exists>e. Morris_init S pfile samples' nl gj gf (Some m) w = (Inl e, w)"
proof -
  from check_optimal_trajectories_rejects [OF assms]
  obtain msg where "check_optimal_trajectories (Some m) samples' = Inl (ValueError msg)" ..
  from Morris_init_rejected [OF this, of S pfile nl gj gf w] show ?thesis by blast
qed

text \<open>
  The theorem at \<open>m = 11\<close> with five samples and a group file, in a world with no call
  made yet.
\<close>

theorem rejected_before_sampling_witness:
  "((5::int) \<le> 11 \<or> (10::int) < 11 \<or> (11::int) \<le> 1) \<and>
   isl (fst (Morris_init
          \<lparr>morris_oat_sample = (\<lambda>N pfile nl gj g. (Inr (0::nat), Suc g)),
           morris_groups_sample = (\<lambda>N G nl gj g. (Inr 0, Suc g)),
           find_optimum_trajectories = (\<lambda>m N nv k g. (Inr m, Suc g))\<rparr>
          [(''a'', ())] 5 4 2 (Some [(''g'', [''a''])]) (Some 11)
          \<lparr>generators = 0::nat, calls = []\<rparr>)) \<and>
   snd (Morris_init
          \<lparr>morris_oat_sample = (\<lambda>N pfile nl gj g. (Inr (0::nat), Suc g)),
           morris_groups_sample = (\<lambda>N G nl gj g. (Inr 0, Suc g)),
           find_optimum_trajectories = (\<lambda>m N nv k g. (Inr m, Suc g))\<rparr>
          [(''a'', ())] 5 4 2 (Some [(''g'', [''a''])]) (Some 11)
          \<lparr>generators = 0::nat, calls = []\<rparr>)
     = \<lparr>generators = 0::nat, calls = []\<rparr>"
proof -
  have h: "(5::int) \<le> 11 \<or> (10::int) < 11 \<or> (11::int) \<le> 1" by simp
  from rejected_before_sampling [OF h] show ?thesis using h by (metis fst_conv snd_conv sum.disc(1))
qed

subsection \<open>The grid\<close>

text \<open>
  C2. For every construction of a Morris sample, if \<open>num_levels\<close> is not an even integer
  at least 2, or \<open>grid_jump\<close> is not a positive integer less than \<open>num_levels\<close>, a
  configuration error is raised. \<open>Morris.__init__\<close> itself does not look at the two
  numbers: it hands them to the trajectory builder, whose check is the one written in
  the specification (\<open>build\<close>); the theorem is that the constructor always reaches the
  builder or raises a configuration error before, and lets the builder's error through.
\<close>

theorem invalid_grid_rejected:
  assumes "\<not> (even nl \<and> 2 \<le> nl) \<or> \<not> (0 < gj \<and> gj < nl)"
  shows "\<exists>e. fst (Morris_init (spec_sampling S) pfile samples' nl gj gf opt w) = Inl e \<and>
           configuration_error e"
proof -
  from assms have inv: "\<not> valid_grid nl gj" by (auto simp: valid_grid_def)
  show ?thesis
  proof (cases "check_optimal_trajectories opt samples'")
    case (Inl e)
    then have "\<exists>msg. e = ValueError msg"
      by (auto simp: check_optimal_trajectories_def split: option.splits if_splits)
    with Morris_init_rejected [OF Inl, of "spec_sampling S" pfile nl gj gf w]
    show ?thesis by auto
  next
    case (Inr u)
    show ?thesis
    proof (cases gf)
      case None
      with Inr inv show ?thesis
        by (simp add: Morris_init_def Let_def create_sample_invalid)
    next
      case (Some data)
      show ?thesis
      proof (cases "compute_groups (read_param_file pfile) data")
        case (Inl e')
        with compute_groups_read_error [OF Inl] Some show ?thesis by (simp add: Morris_init_def)
      next
        case G: (Inr G)
        with Some Inr inv show ?thesis
          by (simp add: Morris_init_def Let_def create_sample_with_groups_invalid)
      qed
    qed
  qed
qed

text \<open>The theorem at three levels, which is odd, and a jump of 2.\<close>

theorem invalid_grid_rejected_witness:
  "\<not> (even (3::int) \<and> (2::int) \<le> 3) \<and>
   fst (Morris_init
          (spec_sampling
             \<lparr>morris_oat_sample = (\<lambda>N pfile nl gj g. (Inr (0::nat), Suc g)),
              morris_groups_sample = (\<lambda>N G nl gj g. (Inr 0, Suc g)),
              find_optimum_trajectories = (\<lambda>m N nv k g. (Inr m, Suc g))\<rparr>)
          [(''a'', ())] 5 3 2 None None \<lparr>generators = 0::nat, calls = []\<rparr>)
     = Inl ConfigurationError"
  using invalid_grid_rejected [where nl = 3 and gj = 2 and gf = None and opt = None
      and samples' = 5 and pfile = "[(''a'', ())]"]
  by (simp add: Morris_init_def check_optimal_trajectories_def create_sample_def
        spec_sampling_def invoke_def build_def valid_grid_def)

subsection \<open>The group matrix\<close>

text \<open>
  C4. \<open>compute_groups\<close> raises a configuration error if and only if some name that the
  group file refers to is not among the names of the parameter file; the error is then
  the \<open>ValueError\<close> of line 144. On the dictionary read from a parameter file it raises
  nothing else either.
\<close>

theorem compute_groups_raises_iff:
  "((\<exists>e. compute_groups pf data = Inl e \<and> configuration_error e)
      \<longleftrightarrow> \<not> names_valid (pf_names pf) data) \<and>
   (\<not> names_valid (pf_names pf) data
      \<longrightarrow> compute_groups pf data = Inl (ValueError msg_names_mismatch)) \<and>
   ((\<exists>e. compute_groups (read_param_file rows) data = Inl e)
      \<longleftrightarrow> \<not> names_valid (map fst rows) data)"
proof -
  have bad: "compute_groups pf data = Inl (ValueError msg_names_mismatch)"
    if "\<not> names_valid (pf_names pf) data" for pf :: "'c param_dict"
    unfolding compute_groups_def Let_def names_check using that by simp
  have good: "\<not> configuration_error e"
    if "names_valid (pf_names pf) data" "compute_groups pf data = Inl e" for e
  proof -
    have "fill_groups (name_indices (pf_names pf)) 0 (map snd data)
            (zeros (pf_num_vars pf, length (map fst data))) = Inl e"
      using that unfolding compute_groups_def Let_def names_check by simp
    from fill_groups_error [OF this] show ?thesis by auto
  qed
  have total: "\<exists>M. compute_groups (read_param_file rows) data = Inr M"
    if "names_valid (map fst rows) data"
    using compute_groups_entries [of "read_param_file rows" data] that
    by (auto simp: read_param_file_def)
  have 1: "(\<exists>e. compute_groups pf data = Inl e \<and> configuration_error e)
      \<longleftrightarrow> \<not> names_valid (pf_names pf) data"
    using bad [of pf] good by auto
  have 3: "(\<exists>e. compute_groups (read_param_file rows) data = Inl e)
      \<longleftrightarrow> \<not> names_valid (map fst rows) data"
    using bad [of "read_param_file rows"] total by (auto simp: read_param_file_def)
  from 1 bad [of pf] 3 show ?thesis by blast
qed

text \<open>
  The theorem on the parameters \<open>a\<close> and \<open>b\<close>: a group naming \<open>c\<close> is rejected, a
  group naming \<open>a\<close> alone is accepted.
\<close>

theorem compute_groups_raises_iff_witness:
  "\<not> names_valid (pf_names (read_param_file [(''a'', ()), (''b'', ())])) [(''g'', [''a'', ''c''])] \<and>
   compute_groups (read_param_file [(''a'', ()), (''b'', ())]) [(''g'', [''a'', ''c''])]
     = Inl (ValueError msg_names_mismatch) \<and>
   names_valid (pf_names (read_param_file [(''a'', ()), (''b'', ())])) [(''g'', [''a''])] \<and>
   \<not> isl (compute_groups (read_param_file [(''a'', ()), (''b'', ())]) [(''g'', [''a''])])"
proof -
  let ?pf = "read_param_file [(''a'', ()), (''b'', ())]"
  have h1: "\<not> names_valid (pf_names ?pf) [(''g'', [''a'', ''c''])]"
    by (simp add: names_valid_def read_param_file_def)
  have h2: "names_valid (pf_names ?pf) [(''g'', [''a''])]"
    by (simp add: names_valid_def read_param_file_def)
  from compute_groups_raises_iff [of ?pf "[(''g'', [''a'', ''c''])]"] h1
  have "compute_groups ?pf [(''g'', [''a'', ''c''])] = Inl (ValueError msg_names_mismatch)"
    by blast
  moreover from compute_groups_raises_iff [of ?pf "[(''g'', [''a''])]" "[(''a'', ()), (''b'', ())]"] h2
  have "\<not> isl (compute_groups ?pf [(''g'', [''a''])])"
    by (cases "compute_groups ?pf [(''g'', [''a''])]") (auto simp: read_param_file_def)
  ultimately show ?thesis using h1 h2 by simp
qed

text \<open>
  C3, as stated: for every group file whose member names all occur among the parameter
  names, entry \<open>(i, j)\<close> of the matrix is 1 exactly when the factor at position \<open>i\<close> is a
  member of the \<open>j\<close>-th group. It fails when a name occurs twice in the parameter file:
  the dictionary of line 147 keeps the last position of a name only. With the
  parameters \<open>a, a\<close> and the group \<open>g = [a]\<close> the factor at position 0 is a member of
  group 0, and entry \<open>(0, 0)\<close> is 0.
\<close>

theorem compute_groups_duplicate_name_counterexample:
  "names_valid (map fst [(''a'', ()), (''a'', ())]) [(''g'', [''a''])] \<and>
   pf_names (read_param_file [(''a'', ()), (''a'', ())]) ! 0 \<in> set (snd ([(''g'', [''a''])] ! 0)) \<and>
   \<not> isl (compute_groups (read_param_file [(''a'', ()), (''a'', ())]) [(''g'', [''a''])]) \<and>
   entry (projr (compute_groups (read_param_file [(''a'', ()), (''a'', ())]) [(''g'', [''a''])]))
     (0, 0) = 0"
  by (simp add: names_valid_def compute_groups_def read_param_file_def name_indices_def
        zeros_def set_entry_def)

text \<open>
  C3, amended: for every group file whose member names all occur among the parameter
  names, and parameter names that are pairwise distinct, \<open>compute_groups\<close> returns a
  matrix of shape \<open>(num_vars, number of rows of the group file)\<close> whose entry \<open>(i, j)\<close>
  is 1 when the factor at position \<open>i\<close> is a member of the group of row \<open>j\<close>, and 0
  otherwise. Each row of the group file is a group, so the order of the rows is the order
  in which the groups first appear.
\<close>

theorem compute_groups_membership_matrix:
  assumes "names_valid (map fst rows) data" and "distinct (map fst rows)"
  shows "\<exists>M. compute_groups (read_param_file rows) data = Inr M \<and>
           shape M = (pf_num_vars (read_param_file rows), length data) \<and>
           (\<forall>i < length rows. \<forall>j < length data.
              entry M (i, j) = (if pf_names (read_param_file rows) ! i \<in> set (snd (data ! j)) then 1 else 0))"
proof -
  from compute_groups_distinct [OF assms] obtain M where
    "compute_groups (read_param_file rows) data = Inr M" "shape M = (length rows, length data)"
    "\<forall>i j. entry M (i, j) =
       (if i < length rows \<and> j < length data \<and> fst (rows ! i) \<in> set (snd (data ! j)) then 1 else 0)"
    by blast
  then show ?thesis by (auto simp: read_param_file_def)
qed

text \<open>The theorem on the parameters \<open>a, b\<close> and the groups \<open>g = [b]\<close>, \<open>h = [a]\<close>.\<close>

theorem compute_groups_membership_matrix_witness:
  "names_valid (map fst [(''a'', ()), (''b'', ())]) [(''g'', [''b'']), (''h'', [''a''])] \<and>
   distinct (map fst [(''a'', ()), (''b'', ())]) \<and>
   \<not> isl (compute_groups (read_param_file [(''a'', ()), (''b'', ())])
            [(''g'', [''b'']), (''h'', [''a''])]) \<and>
   shape (projr (compute_groups (read_param_file [(''a'', ()), (''b'', ())])
            [(''g'', [''b'']), (''h'', [''a''])])) = (2, 2) \<and>
   entry (projr (compute_groups (read_param_file [(''a'', ()), (''b'', ())])
            [(''g'', [''b'']), (''h'', [''a''])])) (0, 0) = 0 \<and>
   entry (projr (compute_groups (read_param_file [(''a'', ()), (''b'', ())])
            [(''g'', [''b'']), (''h'', [''a''])])) (0, 1) = 1"
proof -
  let ?R = "[(''a'', ()), (''b'', ())]"
  let ?D = "[(''g'', [''b'']), (''h'', [''a''])]"
  have h1: "names_valid (map fst ?R) ?D" by (simp add: names_valid_def)
  have h2: "distinct (map fst ?R)" by simp
  from compute_groups_membership_matrix [OF h1 h2] obtain M where
    M: "compute_groups (read_param_file ?R) ?D = Inr M"
    and sh: "shape M = (pf_num_vars (read_param_file ?R), length ?D)"
    and en: "\<forall>i < length ?R. \<forall>j < length ?D.
       entry M (i, j) = (if pf_names (read_param_file ?R) ! i \<in> set (snd (?D ! j)) then 1 else 0)"
    by blast
  from en [rule_format, of 0 0] have "entry M (0, 0) = 0" by (simp add: read_param_file_def)
  moreover from en [rule_format, of 0 1] have "entry M (0, 1) = 1" by (simp add: read_param_file_def)
  moreover from sh have "shape M = (2, 2)" by (simp add: read_param_file_def)
  ultimately show ?thesis using M h1 h2 by simp
qed

text \<open>
  C5, as stated: for every valid group file in which each factor belongs to exactly one
  group, every row of the matrix sums to 1. It fails, again, when a name occurs twice
  in the parameter file: with the parameters \<open>x, y, x\<close> and the groups \<open>g = [x]\<close>,
  \<open>h = [y]\<close> each of the three factors is in exactly one group, and row 0 sums to 0.
\<close>

theorem rows_sum_duplicate_name_counterexample:
  "names_valid (map fst [(''x'', ()), (''y'', ()), (''x'', ())]) [(''g'', [''x'']), (''h'', [''y''])] \<and>
   membership_count (map fst [(''x'', ()), (''y'', ()), (''x'', ())])
     [(''g'', [''x'']), (''h'', [''y''])] 0 = 1 \<and>
   membership_count (map fst [(''x'', ()), (''y'', ()), (''x'', ())])
     [(''g'', [''x'']), (''h'', [''y''])] 1 = 1 \<and>
   membership_count (map fst [(''x'', ()), (''y'', ()), (''x'', ())])
     [(''g'', [''x'']), (''h'', [''y''])] 2 = 1 \<and>
   \<not> isl (compute_groups (read_param_file [(''x'', ()), (''y'', ()), (''x'', ())])
            [(''g'', [''x'']), (''h'', [''y''])]) \<and>
   row_sum (projr (compute_groups (read_param_file [(''x'', ()), (''y'', ()), (''x'', ())])
            [(''g'', [''x'']), (''h'', [''y''])])) 0 = 0"
  by (simp add: names_valid_def membership_count_def compute_groups_def read_param_file_def
        name_indices_def zeros_def set_entry_def row_sum_def upt_rec)

text \<open>
  C5, amended: for every valid group file in which each factor belongs to exactly one
  group, and parameter names that are pairwise distinct, every row of the matrix that
  \<open>compute_groups\<close> returns sums to exactly 1; and every entry is 0 or 1.
\<close>

theorem compute_groups_rows_sum_to_one:
  assumes "names_valid (map fst rows) data" and "distinct (map fst rows)"
      and "\<forall>i < length rows. membership_count (map fst rows) data i = 1"
  shows "\<exists>M. compute_groups (read_param_file rows) data = Inr M \<and>
           (\<forall>i < length rows. row_sum M i = 1) \<and>
           (\<forall>i j. entry M (i, j) = 0 \<or> entry M (i, j) = 1)"
proof -
  from compute_groups_distinct [OF assms(1,2)] obtain M where
    M: "compute_groups (read_param_file rows) data = Inr M" "shape M = (length rows, length data)"
    "\<forall>i j. entry M (i, j) =
       (if i < length rows \<and> j < length data \<and> fst (rows ! i) \<in> set (snd (data ! j)) then 1 else 0)"
    by blast
  have e: "\<forall>i j. entry M (i, j) =
       (if i < length rows \<and> j < length data \<and> map fst rows ! i \<in> set (snd (data ! j)) then 1 else 0)"
    using M(3) by auto
  have "row_sum M i = 1" if "i < length rows" for i
    using row_sum_membership [OF e _ that] M(2) assms(3) that by simp
  moreover have "\<forall>i j. entry M (i, j) = 0 \<or> entry M (i, j) = 1" using M(3) by simp
  ultimately show ?thesis using M(1) by blast
qed

text \<open>The theorem on the parameters \<open>a, b\<close> and the groups \<open>g = [b]\<close>, \<open>h = [a]\<close>.\<close>

theorem compute_groups_rows_sum_to_one_witness:
  "names_valid (map fst [(''a'', ()), (''b'', ())]) [(''g'', [''b'']), (''h'', [''a''])] \<and>
   distinct (map fst [(''a'', ()), (''b'', ())]) \<and>
   membership_count (map fst [(''a'', ()), (''b'', ())]) [(''g'', [''b'']), (''h'', [''a''])] 0 = 1 \<and>
   membership_count (map fst [(''a'', ()), (''b'', ())]) [(''g'', [''b'']), (''h'', [''a''])] 1 = 1 \<and>
   row_sum (projr (compute_groups (read_param_file [(''a'', ()), (''b'', ())])
            [(''g'', [''b'']), (''h'', [''a''])])) 0 = 1 \<and>
   row_sum (projr (compute_groups (read_param_file [(''a'', ()), (''b'', ())])
            [(''g'', [''b'']), (''h'', [''a''])])) 1 = 1"
proof -
  let ?R = "[(''a'', ()), (''b'', ())]"
  let ?D = "[(''g'', [''b'']), (''h'', [''a''])]"
  have h1: "names_valid (map fst ?R) ?D" by (simp add: names_valid_def)
  have h2: "distinct (map fst ?R)" by simp
  have c0: "membership_count (map fst ?R) ?D 0 = 1" by (simp add: membership_count_def)
  have c1: "membership_count (map fst ?R) ?D 1 = 1" by (simp add: membership_count_def)
  have h3: "\<forall>i < length ?R. membership_count (map fst ?R) ?D i = 1"
  proof (intro allI impI)
    fix i assume "i < length ?R"
    then have "i = 0 \<or> i = 1" by auto
    with c0 c1 show "membership_count (map fst ?R) ?D i = 1" by auto
  qed
  from compute_groups_rows_sum_to_one [OF h1 h2 h3] obtain M where
    M: "compute_groups (read_param_file ?R) ?D = Inr M"
    and rs: "\<forall>i < length ?R. row_sum M i = 1"
    by blast
  from rs have "row_sum M 0 = 1" "row_sum M 1 = 1" by simp_all
  then show ?thesis using M h1 h2 c0 c1 by simp
qed

text \<open>
  C6, as stated: when some factor belongs to no group or to more than one, all names
  being valid, \<open>compute_groups\<close> raises a configuration error. It does not: the only
  check of \<open>compute_groups\<close> is the one of the names. With the parameters \<open>a, b\<close>, the
  group file \<open>g = [a]\<close> leaves \<open>b\<close> in no group, and the group file \<open>g = [a, b]\<close>,
  \<open>h = [a]\<close> has \<open>a\<close> in two groups; both give a matrix.
\<close>

theorem membership_unchecked_counterexample:
  "names_valid (map fst [(''a'', ()), (''b'', ())]) [(''g'', [''a''])] \<and>
   membership_count (map fst [(''a'', ()), (''b'', ())]) [(''g'', [''a''])] 1 = 0 \<and>
   \<not> isl (compute_groups (read_param_file [(''a'', ()), (''b'', ())]) [(''g'', [''a''])]) \<and>
   names_valid (map fst [(''a'', ()), (''b'', ())]) [(''g'', [''a'', ''b'']), (''h'', [''a''])] \<and>
   membership_count (map fst [(''a'', ()), (''b'', ())]) [(''g'', [''a'', ''b'']), (''h'', [''a''])] 0 = 2 \<and>
   \<not> isl (compute_groups (read_param_file [(''a'', ()), (''b'', ())])
            [(''g'', [''a'', ''b'']), (''h'', [''a''])])"
  by (simp add: names_valid_def membership_count_def compute_groups_def read_param_file_def
        name_indices_def zeros_def set_entry_def)

text \<open>
  C6, amended: \<open>compute_groups\<close> does not check how many groups a factor belongs to.
  Whenever all the names of the group file are names of the parameter file it returns a
  matrix, and, the parameter names being pairwise distinct, the row of a factor sums to
  the number of groups that list it: 0 for a factor in no group, more than 1 for a factor
  in several.
\<close>

theorem compute_groups_no_membership_check:
  assumes "names_valid (map fst rows) data"
  shows "\<exists>M. compute_groups (read_param_file rows) data = Inr M \<and>
           (distinct (map fst rows) \<longrightarrow>
              (\<forall>i < length rows. row_sum M i = int (membership_count (map fst rows) data i)))"
proof (cases "distinct (map fst rows)")
  case True
  from compute_groups_distinct [OF assms True] obtain M where
    M: "compute_groups (read_param_file rows) data = Inr M" "shape M = (length rows, length data)"
    "\<forall>i j. entry M (i, j) =
       (if i < length rows \<and> j < length data \<and> fst (rows ! i) \<in> set (snd (data ! j)) then 1 else 0)"
    by blast
  have e: "\<forall>i j. entry M (i, j) =
       (if i < length rows \<and> j < length data \<and> map fst rows ! i \<in> set (snd (data ! j)) then 1 else 0)"
    using M(3) by auto
  have "row_sum M i = int (membership_count (map fst rows) data i)" if "i < length rows" for i
    using row_sum_membership [OF e _ that] M(2) by simp
  with M(1) show ?thesis by blast
next
  case False
  have "pf_num_vars (read_param_file rows) = length (pf_names (read_param_file rows))"
    by (simp add: read_param_file_def)
  with compute_groups_entries [of "read_param_file rows" data] assms False
  show ?thesis by (auto simp: read_param_file_def)
qed

text \<open>
  The theorem on the parameters \<open>a, b\<close> and the groups \<open>g = [a]\<close>, \<open>h = [a]\<close>: the row
  of \<open>a\<close> sums to 2, the row of \<open>b\<close> to 0.
\<close>

theorem compute_groups_no_membership_check_witness:
  "names_valid (map fst [(''a'', ()), (''b'', ())]) [(''g'', [''a'']), (''h'', [''a''])] \<and>
   distinct (map fst [(''a'', ()), (''b'', ())]) \<and>
   \<not> isl (compute_groups (read_param_file [(''a'', ()), (''b'', ())])
            [(''g'', [''a'']), (''h'', [''a''])]) \<and>
   row_sum (projr (compute_groups (read_param_file [(''a'', ()), (''b'', ())])
            [(''g'', [''a'']), (''h'', [''a''])])) 0 = 2 \<and>
   row_sum (projr (compute_groups (read_param_file [(''a'', ()), (''b'', ())])
            [(''g'', [''a'']), (''h'', [''a''])])) 1 = 0"
proof -
  let ?R = "[(''a'', ()), (''b'', ())]"
  let ?D = "[(''g'', [''a'']), (''h'', [''a''])]"
  have h1: "names_valid (map fst ?R) ?D" by (simp add: names_valid_def)
  have h2: "distinct (map fst ?R)" by simp
  from compute_groups_no_membership_check [OF h1] h2 obtain M where
    M: "compute_groups (read_param_file ?R) ?D = Inr M"
    and rs: "\<forall>i < length ?R. row_sum M i = int (membership_count (map fst ?R) ?D i)"
    by blast
  from rs [rule_format, of 0] have "row_sum M 0 = 2" by (simp add: membership_count_def)
  moreover from rs [rule_format, of 1] have "row_sum M 1 = 0" by (simp add: membership_count_def)
  ultimately show ?thesis using M h1 h2 by simp
qed

subsection \<open>Scaling\<close>

text \<open>
  C7. For every built sample (\<open>output_sample\<close> is an array of the store),
  \<open>get_input_sample_scaled\<close> leaves the stored sample unchanged: the scaling is applied to
  a copy, at a new address, so the array that \<open>get_input_sample_unscaled\<close> returns has the
  same contents before and after the call, as has every other array allocated before it.
  This holds whatever \<open>scale_samples\<close> does to the array it is given, and also when it
  raises. The method assigns no attribute of \<open>self\<close>, so the object is the same after the
  call.
\<close>

theorem scaling_leaves_sample:
  assumes "output_sample self = Some a" and "a < length h"
  shows "\<exists>r h'. get_input_sample_scaled scale_samples self h = (r, h') \<and>
           h' ! a = h ! a \<and>
           unscaled_contents self h' = unscaled_contents self h \<and>
           (\<forall>k < length h. h' ! k = h ! k) \<and>
           r \<noteq> Inr a \<and>
           (\<forall>a'. r = Inr a' \<longrightarrow> h' ! a' = snd (scale_samples (h ! a) (bounds self)))"
  using assms
  by (auto simp: get_input_sample_scaled_def copy_def unscaled_contents_def
        get_input_sample_unscaled_def nth_append Let_def split: prod.splits option.splits)

text \<open>The theorem on a store of one array, with a scaling that doubles every number.\<close>

theorem scaling_leaves_sample_witness:
  "output_sample \<lparr>parameter_file = [], num_vars = 0, bounds = [] :: unit list,
       parameter_names = [], samples = 1, output_sample = Some (0::nat)\<rparr> = Some 0 \<and>
   0 < length [[1, 2 :: int]] \<and>
   get_input_sample_scaled (\<lambda>c b. (None, map (\<lambda>x. 2 * x) c))
     \<lparr>parameter_file = [], num_vars = 0, bounds = [] :: unit list,
       parameter_names = [], samples = 1, output_sample = Some (0::nat)\<rparr> [[1, 2 :: int]]
     = (Inr 1, [[1, 2], [2, 4]]) \<and>
   unscaled_contents
     \<lparr>parameter_file = [], num_vars = 0, bounds = [] :: unit list,
       parameter_names = [], samples = 1, output_sample = Some (0::nat)\<rparr> [[1, 2], [2, 4 :: int]]
     = Some [1, 2]"
  using scaling_leaves_sample [where a = 0 and h = "[[1, 2 :: int]]"
      and self = "\<lparr>parameter_file = [], num_vars = 0, bounds = [] :: unit list,
                    parameter_names = [], samples = 1, output_sample = Some (0::nat)\<rparr>"
      and scale_samples = "\<lambda>c b. (None, map (\<lambda>x. 2 * x) c)"]
  by (simp add: get_input_sample_scaled_def copy_def unscaled_contents_def
        get_input_sample_unscaled_def)

subsection \<open>flatten\<close>

text \<open>
  C9. For every finite nesting of lists whose leaves are strings, \<open>flatten\<close> yields
  exactly the leaf strings in left-to-right depth-first order; a string is one leaf,
  whatever its characters are.
\<close>

theorem flatten_yields_leaves:
  "flatten l = concat (map leaves l) \<and> flatten [Str s] = [s] \<and> leaves (Lst l) = flatten l"
  by (simp add: flatten_leaves)

text \<open>The theorem on a nesting of depth three with an empty list in it.\<close>

theorem flatten_yields_leaves_witness:
  "flatten [Str ''x1'', Lst [Str ''x2'', Lst [Str ''x3''], Lst []], Str ''x4'']
     = [''x1'', ''x2'', ''x3'', ''x4'']"
  using flatten_yields_leaves [of "[Str ''x1'', Lst [Str ''x2'', Lst [Str ''x3''], Lst []], Str ''x4'']"]
  by simp

end
